theory Spec2Isabelle
  imports Main "HOL-Library.Sublist"
begin

section \<open>The post-install step of python-brlcad\<close>

text \<open>
  The module \<^verbatim>\<open>brlcad/install/post_install.py\<close> drives the ctypesgen generator over the
  BRL-CAD libraries and stitches the generated wrappers into the package \<^verbatim>\<open>_bindings\<close>.
  Everything it does is an effect on the file system or a call into code outside the
  module, so the model threads an explicit world through every function: the files, the
  paths that may not be modified, and the trace of the calls that left the module.
  An exception is a value: every function returns an outcome, \<open>Inl\<close> the exception or
  \<open>Inr\<close> the result, together with the world at the moment it returns or raises.
  The calls of \<^verbatim>\<open>logger.debug\<close> are left out: they change neither the control flow nor
  the files.
\<close>

subsection \<open>Paths, files and exceptions\<close>

text \<open>
  A path is the list of its components, so that \<^verbatim>\<open>os.path.join(p, "x")\<close> is \<open>p @ [''x'']\<close>
  and the entries below a directory \<open>p\<close> are the paths that \<open>p\<close> is a prefix of.
\<close>

type_synonym path = "string list"

datatype node = File string | Dir

datatype error =
    OSError
  | IOError
  | ShutilError
  | KeyError string
  | ValueError
  | OptionsError
  | ParseError
  | ProcessError
  | PrintError
  | LoadError

text \<open>
  The options object of one library, as far as the module reads or writes it.
\<close>

record options =
  brlcad_lib_name :: string
  headers :: "string list"
  "output" :: path
  modules :: "string list"
  other_known_names :: "string list"

text \<open>
  The calls that leave the module, in the order they are made. A call is recorded when it
  is issued, whether it succeeds or not; a load also records the names it returned.
\<close>

datatype call =
    Makedirs path
  | Rmtree path
  | Copytree path path
  | Write path string
  | Parse options
  | Process options
  | Print options
  | Load string path "string list option"

record world =
  files :: "path \<Rightarrow> node option"
  locked :: "path list"
  calls :: "call list"

type_synonym 'a outcome = "(error + 'a) \<times> world"

definition record_call :: "call \<Rightarrow> world \<Rightarrow> world" where
  "record_call c w = w\<lparr>calls := calls w @ [c]\<rparr>"

definition isdir :: "world \<Rightarrow> path \<Rightarrow> bool" where
  "isdir w p = (files w p = Some Dir)"

fun is_file :: "node option \<Rightarrow> bool" where
  "is_file (Some (File c)) = True"
| "is_file n = False"

text \<open>
  \<open>locked w\<close> lists the roots of the subtrees the process may not modify: a path can be
  created, written or deleted only outside of them.
\<close>

definition writable :: "world \<Rightarrow> path \<Rightarrow> bool" where
  "writable w p = (\<not> list_ex (\<lambda>q. prefix q p) (locked w))"

subsection \<open>The library calls on the file system\<close>

text \<open>
  \<^verbatim>\<open>os.makedirs(p)\<close> creates \<open>p\<close> and every missing directory above it. It raises OSError
  when \<open>p\<close> exists, when a path above it is a file, or when \<open>p\<close> may not be created.
\<close>

definition makedirs :: "path \<Rightarrow> world \<Rightarrow> unit outcome" where
  "makedirs p w0 =
     (let w = record_call (Makedirs p) w0 in
      if files w p \<noteq> None \<or> list_ex (\<lambda>q. is_file (files w q)) (prefixes p) \<or> \<not> writable w p
      then (Inl OSError, w)
      else (Inr (), w\<lparr>files := (\<lambda>q. if prefix q p \<and> files w q = None then Some Dir else files w q)\<rparr>))"

text \<open>
  \<^verbatim>\<open>shutil.rmtree(p)\<close> deletes the directory \<open>p\<close> with everything below it. It raises OSError
  when \<open>p\<close> is not a directory, or when \<open>p\<close> or something below it may not be deleted; a
  failed call is taken to leave the tree as it was.
\<close>

definition rmtree :: "path \<Rightarrow> world \<Rightarrow> unit outcome" where
  "rmtree p w0 =
     (let w = record_call (Rmtree p) w0 in
      if files w p \<noteq> Some Dir \<or> list_ex (\<lambda>q. prefix q p \<or> prefix p q) (locked w)
      then (Inl OSError, w)
      else (Inr (), w\<lparr>files := (\<lambda>q. if prefix p q then None else files w q)\<rparr>))"

text \<open>
  \<^verbatim>\<open>shutil.copytree(src, dst)\<close> lists \<open>src\<close>, creates \<open>dst\<close> with \<^verbatim>\<open>os.makedirs\<close> (so \<open>dst\<close>
  must not exist) and copies the listed entries. When \<open>dst\<close> lies below an existing
  subdirectory of \<open>src\<close> the copy descends into itself and ends in an exception.
\<close>

definition copytree :: "path \<Rightarrow> path \<Rightarrow> world \<Rightarrow> unit outcome" where
  "copytree src dst w0 =
     (let w = record_call (Copytree src dst) w0 in
      if files w src \<noteq> Some Dir then (Inl OSError, w)
      else if files w dst \<noteq> None \<or> list_ex (\<lambda>q. is_file (files w q)) (prefixes dst)
              \<or> \<not> writable w dst
      then (Inl OSError, w)
      else if prefix src dst \<and> files w (take (Suc (length src)) dst) = Some Dir
      then (Inl ShutilError, w)
      else (Inr (), w\<lparr>files :=
              (\<lambda>q. if prefix dst q then files w (src @ drop (length dst) q)
                    else if prefix q dst \<and> files w q = None then Some Dir
                    else files w q)\<rparr>))"

text \<open>
  \<^verbatim>\<open>open(p, "w")\<close>, \<^verbatim>\<open>write\<close> and \<^verbatim>\<open>close\<close>: the file \<open>p\<close> is created or replaced. The call
  raises IOError when the directory of \<open>p\<close> does not exist, when \<open>p\<close> is a directory, or
  when \<open>p\<close> may not be written.
\<close>

definition write_file :: "path \<Rightarrow> string \<Rightarrow> world \<Rightarrow> unit outcome" where
  "write_file p c w0 =
     (let w = record_call (Write p c) w0 in
      if p = [] \<or> files w (butlast p) \<noteq> Some Dir \<or> files w p = Some Dir \<or> \<not> writable w p
      then (Inl IOError, w)
      else (Inr (), w\<lparr>files := (files w)(p \<mapsto> File c)\<rparr>))"

subsection \<open>The code outside the module\<close>

text \<open>
  The generator \<^verbatim>\<open>ctypesgencore\<close>, the interpreter and the standard library are not part
  of the module; they are parameters of the model. A stage of the generator that raises
  returns \<open>None\<close>, and the exception is named after the stage. The printer is taken to
  hand over the whole text of the wrapper, which is then written to the output path: a
  printer that fails leaves no file. \<open>load_module name text\<close> is what
  \<^verbatim>\<open>dir(imp.load_source(name, path))\<close> returns for a file with this text.
  \<open>load_ctypesgen_options\<close> stands for the function of that name in \<^verbatim>\<open>options.py\<close>: it
  returns the options objects of the libraries, in the order of the configuration, and
  the version found in \<^verbatim>\<open>brlcad_info["version"]\<close>; it is taken to leave the disk alone.
  A \<open>config\<close> is what \<^verbatim>\<open>load_config()\<close> returns, as far as \<open>main\<close> reads it: whether the
  section \<^verbatim>\<open>brlcad\<close> has the option \<^verbatim>\<open>cached-reinstall\<close>, and what \<^verbatim>\<open>getboolean\<close>
  returns for it (\<open>None\<close> when it raises ValueError).
\<close>

record config =
  has_cached_reinstall :: bool
  getboolean_cached_reinstall :: "bool option"

record 'd env =
  parse :: "string list \<Rightarrow> options \<Rightarrow> 'd option"
  process :: "'d \<Rightarrow> options \<Rightarrow> 'd option"
  printer :: "options \<Rightarrow> 'd \<Rightarrow> string option"
  load_module :: "string \<Rightarrow> string \<Rightarrow> string list option"
  load_ctypesgen_options :: "path \<Rightarrow> config \<Rightarrow> (options list \<times> string) option"
  repr :: "string \<Rightarrow> string"
  json_dumps :: "string list \<Rightarrow> string"

text \<open>
  \<^verbatim>\<open>imp.load_source(name, path)\<close> reads the file and runs it.
\<close>

definition load_source :: "'d env \<Rightarrow> string \<Rightarrow> path \<Rightarrow> world \<Rightarrow> (string list) outcome" where
  "load_source env name p w =
     (case files w p of
        Some (File text) \<Rightarrow>
          (case load_module env name text of
             None \<Rightarrow> (Inl LoadError, record_call (Load name p None) w)
           | Some symbols \<Rightarrow> (Inr symbols, record_call (Load name p (Some symbols)) w))
      | _ \<Rightarrow> (Inl IOError, record_call (Load name p None) w))"

subsection \<open>generate\_wrapper\<close>

definition generate_wrapper :: "'d env \<Rightarrow> options \<Rightarrow> world \<Rightarrow> unit outcome" where
  "generate_wrapper env ctypesgen_options w0 =
     (let w1 = record_call (Parse ctypesgen_options) w0 in
      case parse env (headers ctypesgen_options) ctypesgen_options of
        None \<Rightarrow> (Inl ParseError, w1)
      | Some descriptions \<Rightarrow>
          (let w2 = record_call (Process ctypesgen_options) w1 in
           case process env descriptions ctypesgen_options of
             None \<Rightarrow> (Inl ProcessError, w2)
           | Some descriptions' \<Rightarrow>
               (let w3 = record_call (Print ctypesgen_options) w2 in
                case printer env ctypesgen_options descriptions' of
                  None \<Rightarrow> (Inl PrintError, w3)
                | Some text \<Rightarrow> write_file (output ctypesgen_options) text w3)))"

subsection \<open>cleanup\_bindings\_dir\<close>

text \<open>
  \<open>module_dir\<close> is \<^verbatim>\<open>os.path.dirname(__file__)\<close>. The first \<^verbatim>\<open>try\<close> catches OSError only; the
  other two catch every exception.
\<close>

definition cleanup_bindings_dir :: "path \<Rightarrow> path \<Rightarrow> path \<Rightarrow> world \<Rightarrow> unit outcome" where
  "cleanup_bindings_dir module_dir bindings_path cached_bindings_path w0 =
     (case (case makedirs bindings_path w0 of
              (Inr u, w) \<Rightarrow> (Inr u, w)
            | (Inl e, w) \<Rightarrow> if e = OSError then rmtree bindings_path w else (Inl e, w)) of
        (Inl e, w1) \<Rightarrow> (Inl e, w1)
      | (Inr u, w1) \<Rightarrow>
          (let w2 = snd (rmtree (module_dir @ [''_bindings'']) w1);
               w3 = snd (rmtree cached_bindings_path w2)
           in (Inr (), w3)))"

subsection \<open>generate\_init\_file\<close>

definition newline :: char where
  "newline = CHR 0x0A"

definition init_contents :: "'d env \<Rightarrow> string \<Rightarrow> string list \<Rightarrow> string" where
  "init_contents env brlcad_version library_names =
     ''from distutils.version import StrictVersion'' @ [newline, newline]
     @ ''BRLCAD_VERSION = '' @ repr env brlcad_version @ [newline]
     @ ''__all__ = '' @ json_dumps env library_names @ [newline]"

text \<open>
  The list \<open>library_names\<close> is the caller's list, changed in place by \<^verbatim>\<open>insert\<close>; the model
  returns the list as the call leaves it.
\<close>

definition insert_version :: "string list \<Rightarrow> string list" where
  "insert_version library_names =
     (if ''BRLCAD_VERSION'' \<notin> set library_names then ''BRLCAD_VERSION'' # library_names
      else library_names)"

definition generate_init_file ::
  "'d env \<Rightarrow> path \<Rightarrow> string list \<Rightarrow> string \<Rightarrow> world \<Rightarrow> (string list) outcome" where
  "generate_init_file env bindings_path library_names brlcad_version w =
     (let init_path = bindings_path @ [''__init__.py''];
          library_names' = insert_version library_names
      in case write_file init_path (init_contents env brlcad_version library_names') w of
           (Inl e, w') \<Rightarrow> (Inl e, w')
         | (Inr u, w') \<Rightarrow> (Inr library_names', w'))"

subsection \<open>main\<close>

text \<open>
  The inner loop over \<^verbatim>\<open>ctypesgen_options.modules\<close>: \<^verbatim>\<open>symbol_map[module]\<close> raises KeyError
  for a module that has no entry.
\<close>

fun known_names :: "(string \<rightharpoonup> string list) \<Rightarrow> string list \<Rightarrow> string list \<Rightarrow> error + string list" where
  "known_names symbol_map acc [] = Inr acc"
| "known_names symbol_map acc (module # rest) =
     (case symbol_map module of
        None \<Rightarrow> Inl (KeyError module)
      | Some symbols \<Rightarrow> known_names symbol_map (acc @ symbols) rest)"

type_synonym loop_state = "(string \<rightharpoonup> string list) \<times> string list"

text \<open>
  One pass of the loop over the libraries. The state of the loop is the symbol map and
  the list \<^verbatim>\<open>generated_libraries\<close>.
\<close>

definition loop_body ::
  "'d env \<Rightarrow> path \<Rightarrow> string \<Rightarrow> options \<Rightarrow> loop_state \<Rightarrow> world \<Rightarrow> loop_state outcome" where
  "loop_body env bindings_path version ctypesgen_options st w0 =
     (let symbol_map = fst st;
          generated_libraries = snd st;
          lib_name = brlcad_lib_name ctypesgen_options
      in case known_names symbol_map [] (modules ctypesgen_options) of
           Inl e \<Rightarrow> (Inl e, w0)
         | Inr names \<Rightarrow>
             (let ctypesgen_options = ctypesgen_options\<lparr>other_known_names := names\<rparr> in
              case generate_wrapper env ctypesgen_options w0 of
                (Inl e, w1) \<Rightarrow> (Inl e, w1)
              | (Inr u, w1) \<Rightarrow>
                  (case generate_init_file env bindings_path (generated_libraries @ [lib_name])
                          version w1 of
                     (Inl e, w2) \<Rightarrow> (Inl e, w2)
                   | (Inr generated_libraries', w2) \<Rightarrow>
                       (case load_source env ''_bindings'' (bindings_path @ [''__init__.py'']) w2 of
                          (Inl e, w3) \<Rightarrow> (Inl e, w3)
                        | (Inr u', w3) \<Rightarrow>
                            (case load_source env lib_name (output ctypesgen_options) w3 of
                               (Inl e, w4) \<Rightarrow> (Inl e, w4)
                             | (Inr symbols, w4) \<Rightarrow>
                                 (Inr (symbol_map(lib_name \<mapsto> symbols), generated_libraries'),
                                  w4))))))"

fun main_loop ::
  "'d env \<Rightarrow> path \<Rightarrow> string \<Rightarrow> options list \<Rightarrow> loop_state \<Rightarrow> world \<Rightarrow> loop_state outcome" where
  "main_loop env bindings_path version [] st w = (Inr st, w)"
| "main_loop env bindings_path version (ctypesgen_options # rest) st w =
     (case loop_body env bindings_path version ctypesgen_options st w of
        (Inl e, w') \<Rightarrow> (Inl e, w')
      | (Inr st', w') \<Rightarrow> main_loop env bindings_path version rest st' w')"

text \<open>
  \<^verbatim>\<open>config.has_option(...) and config.getboolean(...)\<close>: \<^verbatim>\<open>getboolean\<close> is called only
  when the option is there, and raises ValueError for a value that is not a boolean.
\<close>

definition cache_bindings :: "config \<Rightarrow> error + bool" where
  "cache_bindings config =
     (if has_cached_reinstall config
      then (case getboolean_cached_reinstall config of None \<Rightarrow> Inl ValueError | Some b \<Rightarrow> Inr b)
      else Inr False)"

text \<open>
  \<open>cached_path module_dir\<close> is \<^verbatim>\<open>os.path.join(os.path.dirname(__file__), "..", "_bindings")\<close>,
  with \<^verbatim>\<open>..\<close> resolved.
\<close>

definition cached_path :: "path \<Rightarrow> path" where
  "cached_path module_dir = butlast module_dir @ [''_bindings'']"

definition main :: "'d env \<Rightarrow> path \<Rightarrow> config \<Rightarrow> path \<Rightarrow> world \<Rightarrow> unit outcome" where
  "main env module_dir config library_path w0 =
     (let bindings_path = library_path @ [''_bindings''] in
      case cache_bindings config of
        Inl e \<Rightarrow> (Inl e, w0)
      | Inr cache \<Rightarrow>
          (let cached_bindings_path = cached_path module_dir in
           if cache \<and> isdir w0 cached_bindings_path
           then copytree cached_bindings_path bindings_path w0
           else
             (case cleanup_bindings_dir module_dir bindings_path cached_bindings_path w0 of
                (Inl e, w1) \<Rightarrow> (Inl e, w1)
              | (Inr u, w1) \<Rightarrow>
                  (case load_ctypesgen_options env bindings_path config of
                     None \<Rightarrow> (Inl OptionsError, w1)
                   | Some (ctypesgen_library_options, version) \<Rightarrow>
                       (case main_loop env bindings_path version ctypesgen_library_options
                               (Map.empty, []) w1 of
                          (Inl e, w2) \<Rightarrow> (Inl e, w2)
                        | (Inr st, w2) \<Rightarrow> copytree bindings_path cached_bindings_path w2)))))"

subsection \<open>Well-formed disks\<close>

text \<open>
  On a disk every entry except the root lies in a directory.
\<close>

definition wf_fs :: "(path \<Rightarrow> node option) \<Rightarrow> bool" where
  "wf_fs fs = (\<forall>p. p \<noteq> [] \<longrightarrow> fs p \<noteq> None \<longrightarrow> fs (butlast p) = Some Dir)"

subsection \<open>Dependency order\<close>

text \<open>
  A list of libraries is in dependency order when every library names as its modules
  only libraries that stand before it in the list; \<open>seen\<close> are the names passed so far.
\<close>

fun dependency_ordered :: "string list \<Rightarrow> options list \<Rightarrow> bool" where
  "dependency_ordered seen [] = True"
| "dependency_ordered seen (ctypesgen_options # rest) =
     (set (modules ctypesgen_options) \<subseteq> set seen
      \<and> dependency_ordered (seen @ [brlcad_lib_name ctypesgen_options]) rest)"

subsection \<open>A small installation to run the module on\<close>

text \<open>
  An empty disk, a package directory \<^verbatim>\<open>/src/brlcad/install\<close>, an install target
  \<^verbatim>\<open>/lib/brlcad\<close>, and a generator that always succeeds except on the libraries listed
  in \<open>failing\<close>. A library is given by its name and the names of the modules it depends on.
\<close>

definition empty_disk :: world where
  "empty_disk = \<lparr>files = Map.empty, locked = [], calls = []\<rparr>"

definition example_module_dir :: path where
  "example_module_dir = [''src'', ''brlcad'', ''install'']"

definition example_library_path :: path where
  "example_library_path = [''lib'', ''brlcad'']"

definition example_options :: "path \<Rightarrow> string \<times> string list \<Rightarrow> options" where
  "example_options bindings_path lib =
     \<lparr>brlcad_lib_name = fst lib, headers = [fst lib @ ''.h''],
      output = bindings_path @ [fst lib @ ''.py''], modules = snd lib,
      other_known_names = []\<rparr>"

fun example_join :: "string list \<Rightarrow> string" where
  "example_join [] = []"
| "example_join [x] = x"
| "example_join (x # y # ys) = x @ '', '' @ example_join (y # ys)"

definition example_json :: "string list \<Rightarrow> string" where
  "example_json names =
     ''['' @ example_join (map (\<lambda>n. [CHR 0x22] @ n @ [CHR 0x22]) names) @ '']''"

definition example_env :: "(string \<times> string list) list \<Rightarrow> string list \<Rightarrow> (string list) env" where
  "example_env libs failing =
     \<lparr>parse = (\<lambda>h opts. if brlcad_lib_name opts \<in> set failing then None else Some h),
      process = (\<lambda>d opts. Some d),
      printer = (\<lambda>opts d. Some (''# wrapper of '' @ brlcad_lib_name opts)),
      load_module = (\<lambda>name body. Some [name @ ''_t'']),
      load_ctypesgen_options = (\<lambda>bindings_path config. Some (map (example_options bindings_path) libs, ''7.24.0'')),
      repr = (\<lambda>s. [CHR 0x27] @ s @ [CHR 0x27]),
      json_dumps = example_json\<rparr>"

definition no_cache :: config where
  "no_cache = \<lparr>has_cached_reinstall = False, getboolean_cached_reinstall = None\<rparr>"

definition use_cache :: config where
  "use_cache = \<lparr>has_cached_reinstall = True, getboolean_cached_reinstall = Some True\<rparr>"

text \<open>
  A disk on which a previous install has left the output directory with a file in it,
  and the same disk with the output directory protected against changes.
\<close>

definition stale_disk :: world where
  "stale_disk =
     \<lparr>files = (\<lambda>p. if prefix p (example_library_path @ [''_bindings'']) then Some Dir
                   else if p = example_library_path @ [''_bindings'', ''old.py'']
                   then Some (File ''stale'') else None),
      locked = [], calls = []\<rparr>"

definition locked_disk :: world where
  "locked_disk = stale_disk\<lparr>locked := [example_library_path @ [''_bindings'']]\<rparr>"

text \<open>
  A disk on which the cache directory exists and may not be deleted.
\<close>

definition locked_cache_disk :: world where
  "locked_cache_disk =
     \<lparr>files = (\<lambda>p. if prefix p (cached_path example_module_dir) then Some Dir else None),
      locked = [cached_path example_module_dir], calls = []\<rparr>"

text \<open>
  A disk that holds the directory of the module and nothing else.
\<close>

definition source_disk :: world where
  "source_disk =
     \<lparr>files = (\<lambda>p. if prefix p example_module_dir then Some Dir else None),
      locked = [], calls = []\<rparr>"

section \<open>Facts about the model\<close>

subsection \<open>The library calls\<close>

lemma record_call_simps [simp]:
  "files (record_call c w) = files w"
  "locked (record_call c w) = locked w"
  "calls (record_call c w) = calls w @ [c]"
  by (simp_all add: record_call_def)

lemma writable_record_call [simp]: "writable (record_call c w) p = writable w p"
  by (simp add: writable_def)

lemma makedirs_InrE:
  assumes "makedirs p w = (Inr u, w')"
  obtains "files w p = None"
    and "files w' = (\<lambda>q. if prefix q p \<and> files w q = None then Some Dir else files w q)"
    and "locked w' = locked w" and "calls w' = calls w @ [Makedirs p]"
  using assms by (auto simp: makedirs_def Let_def split: if_splits cong: if_cong)

lemma makedirs_InlE:
  assumes "makedirs p w = (Inl e, w')"
  obtains "e = OSError" and "w' = record_call (Makedirs p) w"
  using assms by (auto simp: makedirs_def Let_def split: if_splits cong: if_cong)

lemma rmtree_InrE:
  assumes "rmtree p w = (Inr u, w')"
  obtains "files w p = Some Dir"
    and "files w' = (\<lambda>q. if prefix p q then None else files w q)"
    and "locked w' = locked w" and "calls w' = calls w @ [Rmtree p]"
  using assms by (auto simp: rmtree_def Let_def split: if_splits cong: if_cong)

lemma rmtree_InlE:
  assumes "rmtree p w = (Inl e, w')"
  obtains "e = OSError" and "w' = record_call (Rmtree p) w"
  using assms by (auto simp: rmtree_def Let_def split: if_splits cong: if_cong)

lemma rmtree_snd:
  "locked (snd (rmtree p w)) = locked w"
  "calls (snd (rmtree p w)) = calls w @ [Rmtree p]"
  "files (snd (rmtree p w)) q = None \<or> files (snd (rmtree p w)) q = files w q"
  "\<not> prefix p q \<Longrightarrow> files (snd (rmtree p w)) q = files w q"
  by (auto simp: rmtree_def Let_def)

lemma copytree_InrE:
  assumes "copytree src dst w = (Inr u, w')"
  obtains "files w src = Some Dir" and "files w dst = None"
    and "files w' = (\<lambda>q. if prefix dst q then files w (src @ drop (length dst) q)
                    else if prefix q dst \<and> files w q = None then Some Dir
                    else files w q)"
    and "locked w' = locked w" and "calls w' = calls w @ [Copytree src dst]"
  using assms by (auto simp: copytree_def Let_def split: if_splits cong: if_cong)

lemma copytree_InlE:
  assumes "copytree src dst w = (Inl e, w')"
  obtains "w' = record_call (Copytree src dst) w"
  using assms by (auto simp: copytree_def Let_def split: if_splits cong: if_cong)

lemma copytree_error:
  "copytree src dst w = (Inl e, w') \<Longrightarrow> e \<in> {OSError, ShutilError}"
  by (auto simp: copytree_def Let_def split: if_splits)

lemma write_file_InrE:
  assumes "write_file p c w = (Inr u, w')"
  obtains "p \<noteq> []" and "files w (butlast p) = Some Dir"
    and "files w' = (files w)(p \<mapsto> File c)"
    and "locked w' = locked w" and "calls w' = calls w @ [Write p c]"
  using assms by (auto simp: write_file_def Let_def split: if_splits cong: if_cong)

lemma write_file_InlE:
  assumes "write_file p c w = (Inl e, w')"
  obtains "e = IOError" and "w' = record_call (Write p c) w"
  using assms by (auto simp: write_file_def Let_def split: if_splits cong: if_cong)

lemma load_source_InrE:
  assumes "load_source env name p w = (Inr symbols, w')"
  obtains body where "files w p = Some (File body)" and "load_module env name body = Some symbols"
    and "w' = record_call (Load name p (Some symbols)) w"
  using assms by (auto simp: load_source_def split: option.splits node.splits)

lemma load_source_InlE:
  assumes "load_source env name p w = (Inl e, w')"
  obtains "w' = record_call (Load name p None) w"
  using assms by (auto simp: load_source_def split: option.splits node.splits)

lemma load_source_not_KeyError:
  "load_source env name p w = (Inl e, w') \<Longrightarrow> e \<in> {LoadError, IOError}"
  by (auto simp: load_source_def split: option.splits node.splits)

lemma files_load_source:
  "load_source env name p w = (r, w') \<Longrightarrow> files w' = files w"
  by (auto simp: load_source_def split: option.splits node.splits)


subsection \<open>Well-formed disks\<close>

lemma wf_fs_below:
  assumes "wf_fs fs" and "fs p = None"
  shows "fs (p @ q) = None"
proof (induction q rule: rev_induct)
  case Nil
  with assms show ?case by simp
next
  case (snoc x xs)
  show ?case
  proof (rule ccontr)
    assume "fs (p @ xs @ [x]) \<noteq> None"
    with assms(1) have "fs (butlast (p @ xs @ [x])) = Some Dir"
      unfolding wf_fs_def by blast
    with snoc show False by (simp add: butlast_append)
  qed
qed


lemma wf_makedirs:
  assumes "wf_fs (files w)"
  shows "wf_fs (files (snd (makedirs p w)))"
proof (cases "files w p \<noteq> None \<or> list_ex (\<lambda>q. is_file (files w q)) (prefixes p) \<or> \<not> writable w p")
  case True
  with assms show ?thesis
    by (simp add: makedirs_def Let_def)
next
  case False
  then have nofile: "\<And>q. prefix q p \<Longrightarrow> \<not> is_file (files w q)"
    by (auto simp: list_ex_iff)
  have new: "files (snd (makedirs p w))
               = (\<lambda>q. if prefix q p \<and> files w q = None then Some Dir else files w q)"
    using False by (simp add: makedirs_def Let_def cong: if_cong)
  show ?thesis
    unfolding wf_fs_def new
  proof (intro allI impI)
    fix q :: path
    assume q: "q \<noteq> []"
      and ex: "(if prefix q p \<and> files w q = None then Some Dir else files w q) \<noteq> None"
    show "(if prefix (butlast q) p \<and> files w (butlast q) = None then Some Dir
           else files w (butlast q)) = Some Dir"
    proof (cases "prefix q p \<and> files w q = None")
      case True
      then have pb: "prefix (butlast q) p"
        by (meson prefix_order.trans prefixeq_butlast)
      show ?thesis
      proof (cases "files w (butlast q)")
        case None
        with pb show ?thesis by simp
      next
        case (Some n)
        with nofile [OF pb] have "n = Dir"
          by (cases n) auto
        with Some show ?thesis by simp
      qed
    next
      case False
      with ex have "files w q \<noteq> None" by auto
      with assms q have "files w (butlast q) = Some Dir"
        unfolding wf_fs_def by blast
      then show ?thesis by simp
    qed
  qed
qed

lemma wf_rmtree:
  assumes "wf_fs (files w)"
  shows "wf_fs (files (snd (rmtree p w)))"
proof (cases "files w p \<noteq> Some Dir \<or> list_ex (\<lambda>q. prefix q p \<or> prefix p q) (locked w)")
  case True
  with assms show ?thesis
    by (simp add: rmtree_def Let_def)
next
  case False
  then have new: "files (snd (rmtree p w)) = (\<lambda>q. if prefix p q then None else files w q)"
    by (simp add: rmtree_def Let_def cong: if_cong)
  show ?thesis
    unfolding wf_fs_def new
  proof (intro allI impI)
    fix q :: path
    assume q: "q \<noteq> []" and ex: "(if prefix p q then None else files w q) \<noteq> None"
    then have np: "\<not> prefix p q" and "files w q \<noteq> None"
      by (auto split: if_splits)
    with assms q have "files w (butlast q) = Some Dir"
      unfolding wf_fs_def by blast
    moreover from np have "\<not> prefix p (butlast q)"
      by (meson prefix_order.trans prefixeq_butlast)
    ultimately show "(if prefix p (butlast q) then None else files w (butlast q)) = Some Dir"
      by simp
  qed
qed

lemma wf_write_file:
  assumes "wf_fs (files w)"
  shows "wf_fs (files (snd (write_file p c w)))"
proof (cases "p = [] \<or> files w (butlast p) \<noteq> Some Dir \<or> files w p = Some Dir \<or> \<not> writable w p")
  case True
  with assms show ?thesis
    by (simp add: write_file_def Let_def)
next
  case False
  then have new: "files (snd (write_file p c w)) = (files w)(p \<mapsto> File c)"
    by (simp add: write_file_def Let_def)
  show ?thesis
    unfolding wf_fs_def new
  proof (intro allI impI)
    fix q :: path
    assume q: "q \<noteq> []" and ex: "((files w)(p \<mapsto> File c)) q \<noteq> None"
    show "((files w)(p \<mapsto> File c)) (butlast q) = Some Dir"
    proof (cases "q = p")
      case True
      with False q show ?thesis
        by (auto dest: arg_cong [where f = length])
    next
      case qp: False
      with ex have "files w q \<noteq> None" by simp
      with assms q have up: "files w (butlast q) = Some Dir"
        unfolding wf_fs_def by blast
      with False have "butlast q \<noteq> p" by auto
      with up show ?thesis by simp
    qed
  qed
qed

lemma wf_write_file_outcome:
  "write_file p c w = (r, w') \<Longrightarrow> wf_fs (files w) \<Longrightarrow> wf_fs (files w')"
  using wf_write_file [of w p c] by simp

lemma copytree_outside:
  assumes "copytree src dst w = (Inr (), w')" and "wf_fs (files w)" and "files w q \<noteq> None"
  shows "files w' q = files w q"
proof -
  from assms(1) have none: "files w dst = None"
    and new: "files w' = (\<lambda>q. if prefix dst q then files w (src @ drop (length dst) q)
                    else if prefix q dst \<and> files w q = None then Some Dir
                    else files w q)"
    by (auto elim: copytree_InrE)
  have "\<not> prefix dst q"
  proof
    assume "prefix dst q"
    then obtain z where "q = dst @ z" by (auto simp: prefix_def)
    with assms(2) none have "files w q = None" by (simp add: wf_fs_below)
    with assms(3) show False by simp
  qed
  with new assms(3) show ?thesis by simp
qed




subsection \<open>The functions of the module\<close>

lemma generate_wrapper_InrE:
  assumes "generate_wrapper env opts w = (Inr u, w')"
  obtains body where "files w' = (files w)(output opts \<mapsto> File body)"
    and "calls w' = calls w @ [Parse opts, Process opts, Print opts, Write (output opts) body]"
    and "output opts \<noteq> []" and "files w (butlast (output opts)) = Some Dir"
    and "locked w' = locked w"
  using assms
  by (auto simp: generate_wrapper_def Let_def split: option.splits elim!: write_file_InrE)


lemma generate_wrapper_not_KeyError:
  "generate_wrapper env opts w = (Inl e, w') \<Longrightarrow> e \<in> {ParseError, ProcessError, PrintError, IOError}"
  by (auto simp: generate_wrapper_def Let_def split: option.splits elim!: write_file_InlE)

lemma wf_generate_wrapper:
  "generate_wrapper env opts w = (r, w') \<Longrightarrow> wf_fs (files w) \<Longrightarrow> wf_fs (files w')"
  by (auto simp: generate_wrapper_def Let_def split: option.splits
      dest!: wf_write_file_outcome)

lemma generate_init_file_InrE:
  assumes "generate_init_file env bp names ver w = (Inr names', w')"
  obtains "names' = insert_version names"
    and "files w (bp) = Some Dir"
    and "files w' = (files w)(bp @ [''__init__.py''] \<mapsto> File (init_contents env ver names'))"
    and "locked w' = locked w"
    and "calls w' = calls w @ [Write (bp @ [''__init__.py'']) (init_contents env ver names')]"
  using assms
  by (auto simp: generate_init_file_def Let_def split: prod.splits sum.splits elim!: write_file_InrE)

lemma generate_init_file_InlE:
  assumes "generate_init_file env bp names ver w = (Inl e, w')"
  obtains "e = IOError" and "files w' = files w" and "locked w' = locked w"
    and "calls w' = calls w @ [Write (bp @ [''__init__.py'']) (init_contents env ver (insert_version names))]"
  using assms
  by (auto simp: generate_init_file_def Let_def split: prod.splits sum.splits elim!: write_file_InlE)

lemma wf_generate_init_file:
  "generate_init_file env bp names ver w = (r, w') \<Longrightarrow> wf_fs (files w) \<Longrightarrow> wf_fs (files w')"
  by (auto simp: generate_init_file_def Let_def split: prod.splits sum.splits
      dest!: wf_write_file_outcome)

lemma insert_version_mem [simp]: "''BRLCAD_VERSION'' \<in> set (insert_version names)"
  by (simp add: insert_version_def)

lemma insert_version_idem: "''BRLCAD_VERSION'' \<in> set names \<Longrightarrow> insert_version (names @ ns) = names @ ns"
  by (simp add: insert_version_def)

lemma known_names_Inr:
  "known_names sm acc ms = Inr r \<longleftrightarrow> set ms \<subseteq> dom sm \<and> r = acc @ concat (map (\<lambda>m. the (sm m)) ms)"
  by (induction ms arbitrary: acc) (auto split: option.splits)

lemma known_names_Inl:
  "known_names sm acc ms = Inl e \<Longrightarrow> \<exists>m\<in>set ms. sm m = None \<and> e = KeyError m"
  by (induction ms arbitrary: acc) (auto split: option.splits)

lemma known_names_cases:
  "(\<exists>m\<in>set ms. sm m = None \<and> known_names sm acc ms = Inl (KeyError m))
   \<or> (set ms \<subseteq> dom sm \<and> known_names sm acc ms = Inr (acc @ concat (map (\<lambda>m. the (sm m)) ms)))"
  by (cases "known_names sm acc ms") (auto simp: known_names_Inr dest: known_names_Inl)

lemma loop_body_InrE:
  assumes "loop_body env bp ver opts st w = (Inr st', w')"
  obtains names body s0 syms where
    "known_names (fst st) [] (modules opts) = Inr names"
    and "files w' = (files w)(output opts \<mapsto> File body,
            bp @ [''__init__.py''] \<mapsto>
              File (init_contents env ver (insert_version (snd st @ [brlcad_lib_name opts]))))"
    and "st' = ((fst st)(brlcad_lib_name opts \<mapsto> syms),
                insert_version (snd st @ [brlcad_lib_name opts]))"
    and "calls w' = calls w @
           [Parse (opts\<lparr>other_known_names := names\<rparr>),
            Process (opts\<lparr>other_known_names := names\<rparr>),
            Print (opts\<lparr>other_known_names := names\<rparr>),
            Write (output opts) body,
            Write (bp @ [''__init__.py''])
              (init_contents env ver (insert_version (snd st @ [brlcad_lib_name opts]))),
            Load ''_bindings'' (bp @ [''__init__.py'']) (Some s0),
            Load (brlcad_lib_name opts) (output opts) (Some syms)]"
    and "locked w' = locked w"
    and "output opts \<noteq> []" and "files w (butlast (output opts)) = Some Dir"
    and "files w bp = Some Dir" and "output opts \<noteq> bp"
  using assms
  apply (simp add: loop_body_def Let_def split: sum.splits prod.splits)
  apply (elim generate_wrapper_InrE generate_init_file_InrE load_source_InrE)
  apply (auto split: if_splits)
  done

lemma loop_body_cases:
  assumes "loop_body env bp ver opts st w = (r, w')"
  obtains
    (key_error) m where "known_names (fst st) [] (modules opts) = Inl (KeyError m)"
      "r = Inl (KeyError m)" "w' = w"
  | (generator_error) names e where "known_names (fst st) [] (modules opts) = Inr names"
      "generate_wrapper env (opts\<lparr>other_known_names := names\<rparr>) w = (Inl e, w')" "r = Inl e"
  | (init_error) names w1 e where "known_names (fst st) [] (modules opts) = Inr names"
      "generate_wrapper env (opts\<lparr>other_known_names := names\<rparr>) w = (Inr (), w1)"
      "generate_init_file env bp (snd st @ [brlcad_lib_name opts]) ver w1 = (Inl e, w')" "r = Inl e"
  | (after_init) names w1 gl w2 where "known_names (fst st) [] (modules opts) = Inr names"
      "generate_wrapper env (opts\<lparr>other_known_names := names\<rparr>) w = (Inr (), w1)"
      "generate_init_file env bp (snd st @ [brlcad_lib_name opts]) ver w1 = (Inr gl, w2)"
      "files w' = files w2" "locked w' = locked w2"
proof (cases "known_names (fst st) [] (modules opts)")
  case k: (Inl e')
  then obtain m where "e' = KeyError m"
    by (auto dest: known_names_Inl)
  with k assms have "known_names (fst st) [] (modules opts) = Inl (KeyError m)"
    "r = Inl (KeyError m)" "w' = w"
    by (simp_all add: loop_body_def)
  then show ?thesis by (rule key_error)
next
  case k: (Inr names)
  let ?o = "opts\<lparr>other_known_names := names\<rparr>"
  show ?thesis
  proof (cases "generate_wrapper env ?o w")
    case g: (Pair a w1)
    show ?thesis
    proof (cases a)
      case a: (Inl e1)
      with g k assms have "generate_wrapper env ?o w = (Inl e1, w')" "r = Inl e1"
        by (simp_all add: loop_body_def)
      with k show ?thesis by (rule generator_error)
    next
      case a: (Inr u)
      with g have g': "generate_wrapper env ?o w = (Inr (), w1)" by simp
      show ?thesis
      proof (cases "generate_init_file env bp (snd st @ [brlcad_lib_name opts]) ver w1")
        case i: (Pair b w2)
        show ?thesis
        proof (cases b)
          case b: (Inl e2)
          with i g' k assms
          have "generate_init_file env bp (snd st @ [brlcad_lib_name opts]) ver w1 = (Inl e2, w')"
            "r = Inl e2"
            by (simp_all add: loop_body_def)
          with k g' show ?thesis by (rule init_error)
        next
          case b: (Inr gl)
          with i have i': "generate_init_file env bp (snd st @ [brlcad_lib_name opts]) ver w1
                             = (Inr gl, w2)" by simp
          obtain l1 w3 where l1: "load_source env ''_bindings'' (bp @ [''__init__.py'']) w2 = (l1, w3)"
            by (cases "load_source env ''_bindings'' (bp @ [''__init__.py'']) w2")
          obtain l2 w4 where l2: "load_source env (brlcad_lib_name opts) (output opts) w3 = (l2, w4)"
            by (cases "load_source env (brlcad_lib_name opts) (output opts) w3")
          from l1 have f3: "files w3 = files w2" "locked w3 = locked w2"
            by (auto simp: load_source_def record_call_def split: option.splits node.splits)
          from l2 have f4: "files w4 = files w3" "locked w4 = locked w3"
            by (auto simp: load_source_def record_call_def split: option.splits node.splits)
          have "w' = w3 \<or> w' = w4"
            using assms k g' i' l1 l2
            by (cases l1; cases l2) (simp_all add: loop_body_def)
          with f3 f4 have "files w' = files w2" "locked w' = locked w2"
            by auto
          with k g' i' show ?thesis by (rule after_init)
        qed
      qed
    qed
  qed
qed

lemma loop_body_KeyError:
  assumes "loop_body env bp ver opts st w = (Inl (KeyError k), w')"
  shows "known_names (fst st) [] (modules opts) = Inl (KeyError k) \<and> w' = w"
  using assms
  by (auto simp: loop_body_def Let_def split: sum.splits prod.splits
      dest!: generate_wrapper_not_KeyError load_source_not_KeyError
      elim!: generate_init_file_InlE)

lemma wf_loop_body:
  assumes "loop_body env bp ver opts st w = (r, w')" and "wf_fs (files w)"
  shows "wf_fs (files w')"
  using assms(1)
proof (cases rule: loop_body_cases)
  case (key_error m)
  with assms(2) show ?thesis by simp
next
  case (generator_error names e)
  with assms(2) show ?thesis by (auto dest: wf_generate_wrapper)
next
  case (init_error names w1 e)
  with assms(2) show ?thesis by (auto dest: wf_generate_wrapper wf_generate_init_file)
next
  case (after_init names w1 gl w2)
  with assms(2) show ?thesis by (auto dest: wf_generate_wrapper wf_generate_init_file)
qed

lemma cleanup_bindings_dir_cases:
  assumes "cleanup_bindings_dir md bp cp w = (r, w')"
  obtains
    (created) w1 where "makedirs bp w = (Inr (), w1)" "r = Inr ()"
      "w' = snd (rmtree cp (snd (rmtree (md @ [''_bindings'']) w1)))"
  | (deleted) w1 w2 where "makedirs bp w = (Inl OSError, w1)" "rmtree bp w1 = (Inr (), w2)"
      "r = Inr ()" "w' = snd (rmtree cp (snd (rmtree (md @ [''_bindings'']) w2)))"
  | (failed) w1 where "makedirs bp w = (Inl OSError, w1)" "rmtree bp w1 = (Inl OSError, w')"
      "r = Inl OSError"
proof (cases "makedirs bp w")
  case mk: (Pair m w1)
  show ?thesis
  proof (cases m)
    case (Inr u)
    with mk have mk': "makedirs bp w = (Inr (), w1)" by simp
    with assms have "r = Inr ()"
      and "w' = snd (rmtree cp (snd (rmtree (md @ [''_bindings'']) w1)))"
      by (simp_all add: cleanup_bindings_dir_def Let_def)
    with mk' show ?thesis by (rule created)
  next
    case (Inl e)
    with mk have "e = OSError"
      by (auto elim: makedirs_InlE)
    with mk Inl have mk': "makedirs bp w = (Inl OSError, w1)" by simp
    show ?thesis
    proof (cases "rmtree bp w1")
      case rm: (Pair d w2)
      show ?thesis
      proof (cases d)
        case (Inr u)
        with rm have rm': "rmtree bp w1 = (Inr (), w2)" by simp
        with mk' assms have "r = Inr ()"
          and "w' = snd (rmtree cp (snd (rmtree (md @ [''_bindings'']) w2)))"
          by (simp_all add: cleanup_bindings_dir_def Let_def)
        with mk' rm' show ?thesis by (rule deleted)
      next
        case d: (Inl e')
        with rm have "e' = OSError"
          by (auto elim: rmtree_InlE)
        with d rm have rm': "rmtree bp w1 = (Inl OSError, w2)" by simp
        with mk' assms have "r = Inl OSError" and "w2 = w'"
          by (simp_all add: cleanup_bindings_dir_def Let_def)
        with mk' rm' show ?thesis using failed by blast
      qed
    qed
  qed
qed

lemma cleanup_bindings_dir_error:
  "cleanup_bindings_dir md bp cp w = (Inl e, w') \<Longrightarrow> e = OSError"
  by (auto simp: cleanup_bindings_dir_def Let_def split: prod.splits sum.splits if_splits
      elim!: rmtree_InlE makedirs_InlE)

lemma cleanup_bindings_dir_existing:
  assumes "files w bp \<noteq> None" and "cleanup_bindings_dir md bp cp w = (Inr u, w')"
  shows "files w' bp = None"
  using assms(2)
proof (cases rule: cleanup_bindings_dir_cases)
  case (created w1)
  with assms(1) show ?thesis by (auto elim: makedirs_InrE)
next
  case (deleted w1 w2)
  then have "files w2 bp = None"
    by (auto elim!: rmtree_InrE)
  with deleted rmtree_snd(3) [of cp "snd (rmtree (md @ [''_bindings'']) w2)" bp]
    rmtree_snd(3) [of "md @ [''_bindings'']" w2 bp]
  show ?thesis by auto
next
  case (failed w1)
  then show ?thesis by simp
qed


lemma wf_cleanup_bindings_dir:
  assumes "wf_fs (files w)"
  shows "wf_fs (files (snd (cleanup_bindings_dir md bp cp w)))"
proof (cases "cleanup_bindings_dir md bp cp w")
  case (Pair r w')
  then show ?thesis
  proof (cases rule: cleanup_bindings_dir_cases)
    case (created w1)
    with wf_makedirs [OF assms, of bp] have "wf_fs (files w1)" by simp
    with created Pair show ?thesis by (simp add: wf_rmtree)
  next
    case (deleted w1 w2)
    with wf_makedirs [OF assms, of bp] have "wf_fs (files w1)" by simp
    with deleted wf_rmtree [of w1 bp] have "wf_fs (files w2)" by simp
    with deleted Pair show ?thesis by (simp add: wf_rmtree)
  next
    case (failed w1)
    with wf_makedirs [OF assms, of bp] have "wf_fs (files w1)" by simp
    with failed wf_rmtree [of w1 bp] Pair show ?thesis by simp
  qed
qed

subsection \<open>The loop over the libraries\<close>

lemma main_loop_append:
  "main_loop env bp ver (xs @ ys) st w =
     (case main_loop env bp ver xs st w of
        (Inl e, w') \<Rightarrow> (Inl e, w')
      | (Inr st', w') \<Rightarrow> main_loop env bp ver ys st' w')"
  by (induction xs arbitrary: st w) (auto split: prod.splits sum.splits)

lemma main_loop_generated:
  assumes "main_loop env bp ver os st w = (Inr st', w')" and "''BRLCAD_VERSION'' \<in> set (snd st)"
  shows "snd st' = snd st @ map brlcad_lib_name os"
  using assms
proof (induction os arbitrary: st w)
  case Nil
  then show ?case by simp
next
  case (Cons a os)
  from Cons.prems(1) obtain st1 w1 where
    body: "loop_body env bp ver a st w = (Inr st1, w1)"
    and rest: "main_loop env bp ver os st1 w1 = (Inr st', w')"
    by (auto split: prod.splits sum.splits)
  from body Cons.prems(2) have st1: "snd st1 = snd st @ [brlcad_lib_name a]"
    by (auto elim!: loop_body_InrE simp: insert_version_idem)
  with Cons.IH [OF rest] Cons.prems(2) show ?case by simp
qed

lemma main_loop_generated_first:
  assumes "main_loop env bp ver (a # os) (sm, []) w = (Inr st', w')"
  shows "snd st' = insert_version [brlcad_lib_name a] @ map brlcad_lib_name os"
proof -
  from assms obtain st1 w1 where
    body: "loop_body env bp ver a (sm, []) w = (Inr st1, w1)"
    and rest: "main_loop env bp ver os st1 w1 = (Inr st', w')"
    by (auto split: prod.splits sum.splits)
  from body have st1: "snd st1 = insert_version [brlcad_lib_name a]"
    by (auto elim!: loop_body_InrE)
  with main_loop_generated [OF rest] show ?thesis by simp
qed

lemma main_loop_dom:
  assumes "main_loop env bp ver os st w = (Inr st', w')"
  shows "dom (fst st') = dom (fst st) \<union> set (map brlcad_lib_name os)"
  using assms
proof (induction os arbitrary: st w)
  case Nil
  then show ?case by simp
next
  case (Cons a os)
  from Cons.prems(1) obtain st1 w1 where
    body: "loop_body env bp ver a st w = (Inr st1, w1)"
    and rest: "main_loop env bp ver os st1 w1 = (Inr st', w')"
    by (auto split: prod.splits sum.splits)
  from body have "dom (fst st1) = insert (brlcad_lib_name a) (dom (fst st))"
    by (auto elim!: loop_body_InrE)
  with Cons.IH [OF rest] show ?case by auto
qed

lemma main_loop_no_KeyError:
  assumes "dependency_ordered seen libs" and "set seen \<subseteq> dom (fst st)"
  shows "fst (main_loop env bp ver libs st w) \<noteq> Inl (KeyError k)"
  using assms
proof (induction libs arbitrary: seen st w)
  case Nil
  then show ?case by simp
next
  case (Cons a libs)
  show ?case
  proof (cases "loop_body env bp ver a st w")
    case (Pair r w1)
    show ?thesis
    proof (cases r)
      case (Inl e)
      have "e \<noteq> KeyError k"
      proof
        assume "e = KeyError k"
        with Pair Inl have "known_names (fst st) [] (modules a) = Inl (KeyError k)"
          using loop_body_KeyError by blast
        then obtain m where "m \<in> set (modules a)" "fst st m = None"
          by (auto dest: known_names_Inl)
        with Cons.prems show False by auto
      qed
      with Pair Inl show ?thesis by simp
    next
      case (Inr st1)
      with Pair have "dom (fst st1) = insert (brlcad_lib_name a) (dom (fst st))"
        by (auto elim!: loop_body_InrE)
      with Cons.prems have "set (seen @ [brlcad_lib_name a]) \<subseteq> dom (fst st1)"
        by auto
      with Cons.IH [of "seen @ [brlcad_lib_name a]" st1 w1] Cons.prems(1) Pair Inr
      show ?thesis by simp
    qed
  qed
qed

lemma wf_main_loop:
  "main_loop env bp ver libs st w = (r, w') \<Longrightarrow> wf_fs (files w) \<Longrightarrow> wf_fs (files w')"
proof (induction libs arbitrary: st w)
  case Nil
  then show ?case by simp
next
  case (Cons a libs)
  show ?case
  proof (cases "loop_body env bp ver a st w")
    case (Pair b w1)
    from Pair Cons.prems(2) have w1: "wf_fs (files w1)"
      by (rule wf_loop_body)
    show ?thesis
    proof (cases b)
      case (Inl e)
      with Pair Cons.prems(1) w1 show ?thesis by simp
    next
      case (Inr st1)
      with Pair Cons.prems(1) have "main_loop env bp ver libs st1 w1 = (r, w')" by simp
      from this w1 show ?thesis by (rule Cons.IH)
    qed
  qed
qed

lemma main_loop_needs_directory:
  assumes "main_loop env bp ver (a # rest) st w = (Inr st', w')"
  shows "files w bp = Some Dir"
proof -
  from assms obtain st1 w1 where "loop_body env bp ver a st w = (Inr st1, w1)"
    by (auto split: prod.splits sum.splits)
  then show ?thesis by (auto elim!: loop_body_InrE)
qed

lemma main_loop_keeps_entries:
  assumes "main_loop env bp ver libs st w = (Inr st', w')" and "files w q \<noteq> None"
  shows "files w' q \<noteq> None"
  using assms
proof (induction libs arbitrary: st w)
  case Nil
  then show ?case by simp
next
  case (Cons a libs)
  from Cons.prems(1) obtain st1 w1 where
    body: "loop_body env bp ver a st w = (Inr st1, w1)"
    and rest: "main_loop env bp ver libs st1 w1 = (Inr st', w')"
    by (auto split: prod.splits sum.splits)
  from body Cons.prems(2) have "files w1 q \<noteq> None"
    by (auto elim!: loop_body_InrE)
  with rest show ?case by (rule Cons.IH)
qed


subsection \<open>Runs of main\<close>

lemma main_cases:
  assumes "main env md config lp w0 = (r, w')"
  obtains
    (config_error) e where "cache_bindings config = Inl e" "r = Inl e" "w' = w0"
  | (cached) "cache_bindings config = Inr True" "isdir w0 (cached_path md)"
      "copytree (cached_path md) (lp @ [''_bindings'']) w0 = (r, w')"
  | (cleanup_error) cache e where "cache_bindings config = Inr cache"
      "\<not> (cache \<and> isdir w0 (cached_path md))"
      "cleanup_bindings_dir md (lp @ [''_bindings'']) (cached_path md) w0 = (Inl e, w')" "r = Inl e"
  | (options_error) cache where "cache_bindings config = Inr cache"
      "\<not> (cache \<and> isdir w0 (cached_path md))"
      "cleanup_bindings_dir md (lp @ [''_bindings'']) (cached_path md) w0 = (Inr (), w')"
      "load_ctypesgen_options env (lp @ [''_bindings'']) config = None" "r = Inl OptionsError"
  | (loop_error) cache w1 libs ver e where "cache_bindings config = Inr cache"
      "\<not> (cache \<and> isdir w0 (cached_path md))"
      "cleanup_bindings_dir md (lp @ [''_bindings'']) (cached_path md) w0 = (Inr (), w1)"
      "load_ctypesgen_options env (lp @ [''_bindings'']) config = Some (libs, ver)"
      "main_loop env (lp @ [''_bindings'']) ver libs (Map.empty, []) w1 = (Inl e, w')" "r = Inl e"
  | (generated) cache w1 libs ver st w2 where "cache_bindings config = Inr cache"
      "\<not> (cache \<and> isdir w0 (cached_path md))"
      "cleanup_bindings_dir md (lp @ [''_bindings'']) (cached_path md) w0 = (Inr (), w1)"
      "load_ctypesgen_options env (lp @ [''_bindings'']) config = Some (libs, ver)"
      "main_loop env (lp @ [''_bindings'']) ver libs (Map.empty, []) w1 = (Inr st, w2)"
      "copytree (lp @ [''_bindings'']) (cached_path md) w2 = (r, w')"
proof (cases "cache_bindings config")
  case (Inl e)
  with assms config_error show ?thesis
    by (simp add: main_def)
next
  case (Inr cache)
  show ?thesis
  proof (cases "cache \<and> isdir w0 (cached_path md)")
    case True
    with Inr assms cached show ?thesis
      by (auto simp: main_def Let_def)
  next
    case False
    show ?thesis
    proof (cases "cleanup_bindings_dir md (lp @ [''_bindings'']) (cached_path md) w0")
      case (Pair c w1)
      show ?thesis
      proof (cases c)
        case (Inl e)
        with Pair False Inr assms cleanup_error [of cache e] show ?thesis
          by (auto simp: main_def Let_def)
      next
        case c: (Inr u)
        show ?thesis
        proof (cases "load_ctypesgen_options env (lp @ [''_bindings'']) config")
          case None
          with c Pair False Inr assms options_error [of cache] show ?thesis
            by (auto simp: main_def Let_def)
        next
          case (Some lv)
          obtain libs ver where lv: "lv = (libs, ver)" by (cases lv)
          show ?thesis
          proof (cases "main_loop env (lp @ [''_bindings'']) ver libs (Map.empty, []) w1")
            case loop: (Pair l w2)
            show ?thesis
            proof (cases l)
              case (Inl e)
              with loop lv Some c Pair False Inr assms loop_error [of cache w1 libs ver e]
              show ?thesis
                by (auto simp: main_def Let_def)
            next
              case l: (Inr st)
              with loop lv Some c Pair False Inr assms generated [of cache w1 libs ver st w2]
              show ?thesis
                by (auto simp: main_def Let_def)
            qed
          qed
        qed
      qed
    qed
  qed
qed

lemma generated_run_starts_fresh:
  assumes "cleanup_bindings_dir md bp cp w0 = (Inr (), w1)"
    and "main_loop env bp ver libs (Map.empty, []) w1 = (Inr st, w2)"
    and "copytree bp cp w2 = (Inr (), w')"
  shows "files w0 bp = None" and "files w2 bp = Some Dir" and "files w2 cp = None"
proof -
  from assms(3) show dir: "files w2 bp = Some Dir" and "files w2 cp = None"
    by (auto elim: copytree_InrE)
  show "files w0 bp = None"
  proof (rule ccontr)
    assume "files w0 bp \<noteq> None"
    from this assms(1) have gone: "files w1 bp = None"
      by (rule cleanup_bindings_dir_existing)
    show False
    proof (cases libs)
      case Nil
      with assms(2) gone dir show False by simp
    next
      case (Cons a rest)
      with assms(2) have "files w1 bp = Some Dir"
        using main_loop_needs_directory by blast
      with gone show False by simp
    qed
  qed
qed


lemma rerun_without_cache_fails:
  assumes "wf_fs (files w0)"
    and "cache_bindings config = Inr False"
    and "main env md config lp w0 = (Inr (), w1)"
  shows "fst (main env' md config lp w1) \<noteq> Inr ()"
proof
  let ?bp = "lp @ [''_bindings'']"
  let ?cp = "cached_path md"
  assume again: "fst (main env' md config lp w1) = Inr ()"
  from assms(3) obtain c libs ver st w2 where
    cl: "cleanup_bindings_dir md ?bp ?cp w0 = (Inr (), c)"
    and loop: "main_loop env ?bp ver libs (Map.empty, []) c = (Inr st, w2)"
    and copy: "copytree ?bp ?cp w2 = (Inr (), w1)"
    using assms(2) by (cases rule: main_cases) auto
  have wf2: "wf_fs (files w2)"
    using loop wf_cleanup_bindings_dir [OF assms(1), of md ?bp ?cp] cl
    by (auto intro: wf_main_loop)
  from copy have "files w2 ?bp = Some Dir"
    by (auto elim: copytree_InrE)
  with copytree_outside [OF copy wf2, of ?bp] have left: "files w1 ?bp = Some Dir"
    by simp
  obtain w3 where run2: "main env' md config lp w1 = (Inr (), w3)"
    using again by (cases "main env' md config lp w1") simp
  from run2 obtain c' libs' ver' st' w2' where
    "cleanup_bindings_dir md ?bp ?cp w1 = (Inr (), c')"
    and "main_loop env' ?bp ver' libs' (Map.empty, []) c' = (Inr st', w2')"
    and "copytree ?bp ?cp w2' = (Inr (), w3)"
    using assms(2) by (cases rule: main_cases) auto
  then have "files w1 ?bp = None"
    by (rule generated_run_starts_fresh)
  with left show False by simp
qed

subsection \<open>Running the small installation\<close>

lemmas ex_defs = empty_disk_def example_module_dir_def example_library_path_def example_options_def
  example_json_def example_env_def no_cache_def use_cache_def stale_disk_def locked_disk_def locked_cache_disk_def
  source_disk_def

lemmas run_defs = main_def cache_bindings_def cached_path_def cleanup_bindings_dir_def
  makedirs_def rmtree_def copytree_def write_file_def record_call_def isdir_def writable_def
  loop_body_def generate_wrapper_def generate_init_file_def load_source_def insert_version_def
  init_contents_def Let_def

lemma outcome_InrI: "\<not> isl (fst r) \<Longrightarrow> r = (Inr (projr (fst r)), snd r)"
  by (cases r; cases "fst r") auto

section \<open>The claims\<close>

subsection \<open>The files a run leaves\<close>




subsection \<open>The cleanup\<close>

text \<open>
  Claim C2. The output directory exists before the cleanup: \<^verbatim>\<open>os.makedirs\<close> raises
  OSError, \<^verbatim>\<open>shutil.rmtree\<close> deletes the directory, and the function returns without
  making it again.
\<close>

theorem cleanup_bindings_dir_does_not_recreate:
  "(let bp = example_library_path @ [''_bindings''];
        r = cleanup_bindings_dir example_module_dir bp (cached_path example_module_dir) stale_disk
    in isdir stale_disk bp \<and> fst r = Inr () \<and> files (snd r) bp = None)"
  by (simp add: ex_defs run_defs)

subsection \<open>Two libraries\<close>



subsection \<open>Missing dependencies\<close>

text \<open>
  Claim C4. When the loop reaches a library one of whose modules is not the name of a
  library whose pass has completed before it, \<^verbatim>\<open>symbol_map[module]\<close> raises KeyError for
  such a module and \<open>main\<close> ends in that exception, in the world the previous pass left:
  nothing of the generator has been called for this library. Conversely, when every
  library names only libraries that stand before it in the list, \<open>main\<close> never ends in a
  KeyError.
\<close>

theorem missing_dependency_is_KeyError:
  "(cache_bindings config = Inr cache \<and> \<not> (cache \<and> isdir w0 (cached_path module_dir))
      \<and> cleanup_bindings_dir module_dir (library_path @ [''_bindings'']) (cached_path module_dir) w0
            = (Inr (), w1)
      \<and> load_ctypesgen_options env (library_path @ [''_bindings'']) config
            = Some (pre @ opts # post, version)
      \<and> main_loop env (library_path @ [''_bindings'']) version pre (Map.empty, []) w1 = (Inr st, w2)
      \<and> \<not> set (modules opts) \<subseteq> set (map brlcad_lib_name pre)
    \<longrightarrow> (\<exists>m\<in>set (modules opts) - set (map brlcad_lib_name pre).
           main env module_dir config library_path w0 = (Inl (KeyError m), w2)))
   \<and> (load_ctypesgen_options env (library_path @ [''_bindings'']) config = Some (libs, version)
      \<and> dependency_ordered [] libs
    \<longrightarrow> (\<forall>k. fst (main env module_dir config library_path w0) \<noteq> Inl (KeyError k)))"
proof (intro conjI impI)
  assume a: "cache_bindings config = Inr cache \<and> \<not> (cache \<and> isdir w0 (cached_path module_dir))
      \<and> cleanup_bindings_dir module_dir (library_path @ [''_bindings'']) (cached_path module_dir) w0
            = (Inr (), w1)
      \<and> load_ctypesgen_options env (library_path @ [''_bindings'']) config
            = Some (pre @ opts # post, version)
      \<and> main_loop env (library_path @ [''_bindings'']) version pre (Map.empty, []) w1 = (Inr st, w2)
      \<and> \<not> set (modules opts) \<subseteq> set (map brlcad_lib_name pre)"
  from a have run: "main_loop env (library_path @ [''_bindings'']) version pre (Map.empty, []) w1 = (Inr st, w2)"
    by blast
  have "dom (fst st) = set (map brlcad_lib_name pre)"
    using main_loop_dom [OF run] by simp
  then have dom: "dom (fst st) = set (map brlcad_lib_name pre)" .
  from a have "\<not> set (modules opts) \<subseteq> dom (fst st)"
    unfolding dom by blast
  with known_names_cases [of "modules opts" "fst st" "[]"]
  obtain m where m0: "m \<in> set (modules opts)" "fst st m = None"
    "known_names (fst st) [] (modules opts) = Inl (KeyError m)"
    by blast
  from m0(2) have "m \<notin> dom (fst st)"
    by (simp add: domIff)
  with m0 dom have m: "m \<in> set (modules opts)" "m \<notin> set (map brlcad_lib_name pre)"
    "known_names (fst st) [] (modules opts) = Inl (KeyError m)"
    by simp_all
  then have "loop_body env (library_path @ [''_bindings'']) version opts st w2 = (Inl (KeyError m), w2)"
    by (simp add: loop_body_def)
  with a have "main env module_dir config library_path w0 = (Inl (KeyError m), w2)"
    by (auto simp: main_def Let_def main_loop_append)
  with m show "\<exists>m\<in>set (modules opts) - set (map brlcad_lib_name pre).
           main env module_dir config library_path w0 = (Inl (KeyError m), w2)"
    by blast
next
  assume b: "load_ctypesgen_options env (library_path @ [''_bindings'']) config = Some (libs, version)
      \<and> dependency_ordered [] libs"
  show "\<forall>k. fst (main env module_dir config library_path w0) \<noteq> Inl (KeyError k)"
  proof
    fix k
    have loop: "\<And>w. fst (main_loop env (library_path @ [''_bindings'']) version libs (Map.empty, []) w)
                 \<noteq> Inl (KeyError k)"
      using b main_loop_no_KeyError [of "[]" libs "(Map.empty, [])"] by simp
    obtain r w' where run: "main env module_dir config library_path w0 = (r, w')"
      by (cases "main env module_dir config library_path w0")
    from run have "r \<noteq> Inl (KeyError k)"
    proof (cases rule: main_cases)
      case (config_error e)
      then show ?thesis
        by (auto simp: cache_bindings_def split: if_splits option.splits)
    next
      case cached
      then show ?thesis by (cases r) (auto dest: copytree_error)
    next
      case (cleanup_error cache e)
      then show ?thesis by (auto dest: cleanup_bindings_dir_error)
    next
      case (options_error cache)
      then show ?thesis by simp
    next
      case (loop_error cache w1 libs' ver e)
      with b loop [of w1] show ?thesis by auto
    next
      case (generated cache w1 libs' ver st w2)
      then show ?thesis by (cases r) (auto dest: copytree_error)
    qed
    with run show "fst (main env module_dir config library_path w0) \<noteq> Inl (KeyError k)"
      by simp
  qed
qed

theorem missing_dependency_is_KeyError_witness:
  "(\<exists>w2. main (example_env [(''a'', []), (''b'', [''c'']), (''c'', [])] []) example_module_dir no_cache
           example_library_path empty_disk = (Inl (KeyError ''c''), w2))
   \<and> dependency_ordered [] (map (example_options (example_library_path @ [''_bindings'']))
                              [(''a'', []), (''b'', [''a''])])
   \<and> (\<forall>k. fst (main (example_env [(''a'', []), (''b'', [''a''])] []) example_module_dir no_cache
           example_library_path empty_disk) \<noteq> Inl (KeyError k))"
proof -
  let ?e = "example_env [(''a'', []), (''b'', [''c'']), (''c'', [])] []"
  let ?e' = "example_env [(''a'', []), (''b'', [''a''])] []"
  let ?bp = "example_library_path @ [''_bindings'']"
  let ?a = "example_options ?bp (''a'', [])"
  let ?b = "example_options ?bp (''b'', [''c''])"
  let ?c = "example_options ?bp (''c'', [])"
  define w1 where "w1 = snd (cleanup_bindings_dir example_module_dir ?bp
                               (cached_path example_module_dir) empty_disk)"
  define r where "r = main_loop ?e ?bp ''7.24.0'' [?a] (Map.empty, []) w1"
  have h1: "cache_bindings no_cache = Inr False"
    by (simp add: cache_bindings_def no_cache_def)
  have h3: "cleanup_bindings_dir example_module_dir ?bp (cached_path example_module_dir) empty_disk
              = (Inr (), w1)"
    unfolding w1_def by (simp add: ex_defs run_defs)
  have h4: "load_ctypesgen_options ?e ?bp no_cache = Some ([?a] @ ?b # [?c], ''7.24.0'')"
    by (simp add: example_env_def)
  have "\<not> isl (fst r)"
    unfolding r_def w1_def by (simp add: ex_defs run_defs)
  then have h5: "main_loop ?e ?bp ''7.24.0'' [?a] (Map.empty, []) w1 = (Inr (projr (fst r)), snd r)"
    unfolding r_def by (rule outcome_InrI)
  have h6: "\<not> set (modules ?b) \<subseteq> set (map brlcad_lib_name [?a])"
    by (simp add: example_options_def)
  from missing_dependency_is_KeyError
         [of no_cache False empty_disk example_module_dir example_library_path w1 ?e
             "[?a]" ?b "[?c]" "''7.24.0''" "projr (fst r)" "snd r", THEN conjunct1]
       h1 h3 h4 h5 h6
  obtain m where m: "m \<in> set (modules ?b) - set (map brlcad_lib_name [?a])"
    and run: "main ?e example_module_dir no_cache example_library_path empty_disk
                = (Inl (KeyError m), snd r)"
    by blast
  from m have "m = ''c''"
    by (simp add: example_options_def)
  then have part1: "\<exists>w2. main ?e example_module_dir no_cache example_library_path empty_disk
                              = (Inl (KeyError ''c''), w2)"
    using run by blast
  have g1: "load_ctypesgen_options ?e' ?bp no_cache
              = Some (map (example_options ?bp) [(''a'', []), (''b'', [''a''])], ''7.24.0'')"
    by (simp add: example_env_def)
  have g2: "dependency_ordered [] (map (example_options ?bp) [(''a'', []), (''b'', [''a''])])"
    by (simp add: example_options_def)
  from missing_dependency_is_KeyError
         [of no_cache False empty_disk example_module_dir example_library_path w1 ?e'
             "[]" ?a "[]" "''7.24.0''" "projr (fst r)" "snd r"
             "map (example_options ?bp) [(''a'', []), (''b'', [''a''])]", THEN conjunct2]
       g1 g2
  have part2: "\<forall>k. fst (main ?e' example_module_dir no_cache example_library_path empty_disk)
                 \<noteq> Inl (KeyError k)"
    by blast
  from part1 g2 part2 show ?thesis by blast
qed

subsection \<open>Running twice\<close>

text \<open>
  Claim C5. A first run on an empty disk completes; the second run, on the disk the
  first one left, deletes the output directory in its cleanup and ends in an IOError when
  the wrapper of the first library is to be written.
\<close>

theorem second_run_fails:
  "(let e = example_env [(''a'', [])] [];
        r1 = main e example_module_dir no_cache example_library_path empty_disk;
        r2 = main e example_module_dir no_cache example_library_path (snd r1)
    in fst r1 = Inr () \<and> fst r2 = Inl IOError)"
  by (simp add: ex_defs run_defs)

subsection \<open>Installing from the cache\<close>




subsection \<open>A failing generator\<close>



subsection \<open>The manifest after every pass\<close>




subsection \<open>Exceptions of the file system\<close>




subsection \<open>The list of generated libraries\<close>

text \<open>
  Claim C10, as amended. \<open>generate_init_file\<close> leaves the caller's list with
  \<^verbatim>\<open>"BRLCAD_VERSION"\<close> put in front when the name was not in it, and as it was otherwise.
  So after every pass of the loop of \<open>main\<close> the list \<^verbatim>\<open>generated_libraries\<close> starts with
  \<^verbatim>\<open>"BRLCAD_VERSION"\<close>; when no library bears that name, the list is that name followed by
  the libraries generated so far, and holds it exactly once.
\<close>

theorem generate_init_file_changes_library_names:
  "(generate_init_file env bp names ver w = (Inr names', w') \<longrightarrow>
      names' = (if ''BRLCAD_VERSION'' \<in> set names then names else ''BRLCAD_VERSION'' # names))
   \<and> (main_loop env bp ver (a # rest) (Map.empty, []) w1 = (Inr st, w2) \<longrightarrow>
        hd (snd st) = ''BRLCAD_VERSION''
        \<and> (''BRLCAD_VERSION'' \<notin> set (map brlcad_lib_name (a # rest)) \<longrightarrow>
             snd st = ''BRLCAD_VERSION'' # map brlcad_lib_name (a # rest)
             \<and> count_list (snd st) ''BRLCAD_VERSION'' = 1))"
proof (intro conjI impI)
  assume "generate_init_file env bp names ver w = (Inr names', w')"
  then show "names' = (if ''BRLCAD_VERSION'' \<in> set names then names else ''BRLCAD_VERSION'' # names)"
    by (auto elim!: generate_init_file_InrE simp: insert_version_def)
next
  assume run: "main_loop env bp ver (a # rest) (Map.empty, []) w1 = (Inr st, w2)"
  have gl: "snd st = insert_version [brlcad_lib_name a] @ map brlcad_lib_name rest"
    using main_loop_generated_first [OF run] .
  then show "hd (snd st) = ''BRLCAD_VERSION''"
    by (simp add: insert_version_def)
  assume no: "''BRLCAD_VERSION'' \<notin> set (map brlcad_lib_name (a # rest))"
  with gl show "snd st = ''BRLCAD_VERSION'' # map brlcad_lib_name (a # rest)"
    by (auto simp: insert_version_def)
  with no show "count_list (snd st) ''BRLCAD_VERSION'' = 1"
    by (auto simp: count_list_0_iff)
qed

theorem generate_init_file_changes_library_names_witness:
  "(\<exists>w'. generate_init_file (example_env [] []) (example_library_path @ [''_bindings''])
            [''a''] ''7.24.0'' (snd (makedirs (example_library_path @ [''_bindings'']) empty_disk))
          = (Inr [''BRLCAD_VERSION'', ''a''], w'))
   \<and> (\<exists>st w2. main_loop (example_env [] []) (example_library_path @ [''_bindings'']) ''7.24.0''
                 (map (example_options (example_library_path @ [''_bindings'']))
                    [(''a'', []), (''b'', [''a''])])
                 (Map.empty, []) (snd (makedirs (example_library_path @ [''_bindings'']) empty_disk))
               = (Inr st, w2)
             \<and> snd st = [''BRLCAD_VERSION'', ''a'', ''b'']
             \<and> count_list (snd st) ''BRLCAD_VERSION'' = 1)"
proof -
  let ?e = "example_env [] [] :: (string list) env"
  let ?bp = "example_library_path @ [''_bindings'']"
  let ?w = "snd (makedirs ?bp empty_disk)"
  let ?a = "example_options ?bp (''a'', [])"
  let ?b = "example_options ?bp (''b'', [''a''])"
  define g where "g = generate_init_file ?e ?bp [''a''] ''7.24.0'' ?w"
  define r where "r = main_loop ?e ?bp ''7.24.0'' [?a, ?b] (Map.empty, []) ?w"
  have "\<not> isl (fst g)"
    unfolding g_def by (simp add: ex_defs run_defs)
  then have g: "generate_init_file ?e ?bp [''a''] ''7.24.0'' ?w = (Inr (projr (fst g)), snd g)"
    unfolding g_def by (rule outcome_InrI)
  have "\<not> isl (fst r)"
    unfolding r_def by (simp add: ex_defs run_defs)
  then have r: "main_loop ?e ?bp ''7.24.0'' (?a # [?b]) (Map.empty, []) ?w
                  = (Inr (projr (fst r)), snd r)"
    unfolding r_def by (rule outcome_InrI)
  have no: "''BRLCAD_VERSION'' \<notin> set (map brlcad_lib_name (?a # [?b]))"
    by (simp add: example_options_def)
  note inst = generate_init_file_changes_library_names
               [of ?e ?bp "[''a'']" "''7.24.0''" ?w "projr (fst g)" "snd g"
                   ?a "[?b]" ?w "projr (fst r)" "snd r"]
  from inst g have "projr (fst g) = [''BRLCAD_VERSION'', ''a'']"
    by simp
  with g have part1: "\<exists>w'. generate_init_file ?e ?bp [''a''] ''7.24.0'' ?w
                          = (Inr [''BRLCAD_VERSION'', ''a''], w')"
    by auto
  from inst r no have "snd (projr (fst r)) = ''BRLCAD_VERSION'' # map brlcad_lib_name (?a # [?b])
      \<and> count_list (snd (projr (fst r))) ''BRLCAD_VERSION'' = 1"
    by blast
  then have "snd (projr (fst r)) = [''BRLCAD_VERSION'', ''a'', ''b'']
      \<and> count_list (snd (projr (fst r))) ''BRLCAD_VERSION'' = 1"
    by (simp add: example_options_def)
  with r have part2: "\<exists>st w2. main_loop ?e ?bp ''7.24.0'' [?a, ?b] (Map.empty, []) ?w = (Inr st, w2)
             \<and> snd st = [''BRLCAD_VERSION'', ''a'', ''b'']
             \<and> count_list (snd st) ''BRLCAD_VERSION'' = 1"
    by blast
  from part1 part2 show ?thesis by simp
qed

text \<open>
  With the libraries \<^verbatim>\<open>a\<close> and \<^verbatim>\<open>BRLCAD_VERSION\<close> the list holds the marker twice
  after the second pass.
\<close>

theorem generated_libraries_version_twice:
  "(let r = main_loop (example_env [] []) (example_library_path @ [''_bindings'']) ''7.24.0''
              (map (example_options (example_library_path @ [''_bindings'']))
                 [(''a'', []), (''BRLCAD_VERSION'', [])])
              (Map.empty, []) (snd (makedirs (example_library_path @ [''_bindings'']) empty_disk))
    in \<not> isl (fst r)
       \<and> snd (projr (fst r)) = [''BRLCAD_VERSION'', ''a'', ''BRLCAD_VERSION'']
       \<and> count_list (snd (projr (fst r))) ''BRLCAD_VERSION'' = 2)"
  by (simp add: ex_defs run_defs)

end
